theory Spec2Isabelle
  imports Complex_Main "HOL-Library.Log_Nat"
begin

section \<open>Python values used by the analyzer\<close>

subsection \<open>Text\<close>

text \<open>
  A Python \<open>str\<close> is modelled as the list of its code points, each below 256 (a
  \<^typ>\<open>char\<close> holds one such code point). On that range \<open>str.lower\<close> moves
  A-Z and the Latin-1 capitals (0xC0-0xDE without 0xD7) up by 32, and \<open>str.strip\<close>
  removes the characters for which \<open>str.isspace\<close> holds from both ends.
\<close>

definition py_lower_char :: "char \<Rightarrow> char" where
  "py_lower_char c =
     (let n = (of_char c :: nat)
      in if (65 \<le> n \<and> n \<le> 90) \<or> (192 \<le> n \<and> n \<le> 222 \<and> n \<noteq> 215)
         then char_of (n + 32) else c)"

definition py_lower :: "string \<Rightarrow> string" where
  "py_lower s = map py_lower_char s"

definition py_isspace :: "char \<Rightarrow> bool" where
  "py_isspace c =
     (let n = (of_char c :: nat)
      in (9 \<le> n \<and> n \<le> 13) \<or> (28 \<le> n \<and> n \<le> 32) \<or> n = 133 \<or> n = 160)"

definition py_strip :: "string \<Rightarrow> string" where
  "py_strip s = rev (dropWhile py_isspace (rev (dropWhile py_isspace s)))"

text \<open>\<open>part in domain\<close> for two strings: \<open>part\<close> occurs as a contiguous slice.\<close>

fun py_in :: "string \<Rightarrow> string \<Rightarrow> bool" where
  "py_in part [] = (part = [])"
| "py_in part (c # cs) = (take (length part) (c # cs) = part \<or> py_in part cs)"

subsection \<open>Exceptions\<close>

text \<open>
  A call that may raise returns a sum: \<open>Inl msg\<close> is a raised exception \<open>e\<close> with
  \<open>str(e) = msg\<close> (every handler of the analyzer uses the message only), \<open>Inr v\<close>
  is the returned value.
\<close>

type_synonym 'a raising = "string + 'a"

subsection \<open>Floating point\<close>

text \<open>
  A Python \<open>float\<close> is an IEEE-754 double. A finite double is modelled by the rational
  it denotes, and every operation rounds the exact result to 53 significant bits, ties
  to even. \<open>expo x\<close> is the binary exponent of a positive \<open>x\<close>. The exponent range
  is not modelled: the numbers of the analyzer are sums of at most \<open>2^63\<close> scores (a
  CPython list holds no more elements) of at most 200 each, and the constants 0.2 and
  0.3, far from both ends of the range.
\<close>

definition pow2 :: "int \<Rightarrow> rat" where
  "pow2 e = (if 0 \<le> e then 2 ^ nat e else 1 / 2 ^ nat (- e))"

definition expo :: "rat \<Rightarrow> int" where
  "expo x =
     (let (p, q) = quotient_of x; e0 = bitlen p - bitlen q
      in if pow2 e0 \<le> x then e0 else e0 - 1)"

definition round_half_even :: "rat \<Rightarrow> int" where
  "round_half_even y =
     (let f = \<lfloor>y\<rfloor>; d = y - of_int f
      in if d < 1 / 2 then f
         else if 1 / 2 < d then f + 1
         else if even f then f else f + 1)"

definition round_double :: "rat \<Rightarrow> rat" where
  "round_double x =
     (if x = 0 then 0
      else let a = \<bar>x\<bar>; e = expo a; m = round_half_even (a * pow2 (52 - e))
           in sgn x * of_int m * pow2 (e - 52))"

text \<open>
  A decimal literal denotes the double nearest to it: \<open>float_literal m d\<close> is the
  literal with digits \<open>m\<close>, the last \<open>d\<close> of them behind the point, so \<open>0.2\<close> is
  \<open>float_literal 2 1\<close>.
\<close>

definition float_literal :: "int \<Rightarrow> int \<Rightarrow> rat" where
  "float_literal m d = round_double (of_int m / 10 ^ nat d)"

text \<open>\<open>float(n)\<close>, applied implicitly when an \<open>int\<close> meets a \<open>float\<close>.\<close>

definition int_to_float :: "int \<Rightarrow> rat" where
  "int_to_float n = round_double (of_int n)"

definition float_mul :: "rat \<Rightarrow> rat \<Rightarrow> rat" where
  "float_mul a b = round_double (a * b)"

definition float_add :: "rat \<Rightarrow> rat \<Rightarrow> rat" where
  "float_add a b = round_double (a + b)"

text \<open>\<open>int(x)\<close> truncates toward zero.\<close>

definition py_int :: "rat \<Rightarrow> int" where
  "py_int x = (if 0 \<le> x then \<lfloor>x\<rfloor> else - \<lfloor>- x\<rfloor>)"

section \<open>Configuration tables\<close>

definition PERMISSION_SCORES :: "(string \<times> int) list" where
  "PERMISSION_SCORES =
    [(''android.permission.READ_SMS'', 200),
     (''android.permission.SEND_SMS'', 200),
     (''android.permission.RECEIVE_SMS'', 200),
     (''android.permission.CALL_PHONE'', 150),
     (''android.permission.READ_CONTACTS'', 120),
     (''android.permission.WRITE_CONTACTS'', 120),
     (''android.permission.READ_CALL_LOG'', 150),
     (''android.permission.WRITE_CALL_LOG'', 150),
     (''android.permission.PROCESS_OUTGOING_CALLS'', 150),
     (''android.permission.GET_ACCOUNTS'', 100),
     (''android.permission.AUTHENTICATE_ACCOUNTS'', 100),
     (''android.permission.CAMERA'', 80),
     (''android.permission.RECORD_AUDIO'', 80),
     (''android.permission.ACCESS_FINE_LOCATION'', 70),
     (''android.permission.ACCESS_COARSE_LOCATION'', 70),
     (''android.permission.REQUEST_INSTALL_PACKAGES'', 90),
     (''android.permission.SYSTEM_ALERT_WINDOW'', 100),
     (''android.permission.WRITE_SETTINGS'', 80),
     (''android.permission.WRITE_EXTERNAL_STORAGE'', 50),
     (''android.permission.READ_EXTERNAL_STORAGE'', 50),
     (''android.permission.INTERNET'', 10),
     (''android.permission.ACCESS_NETWORK_STATE'', 5),
     (''android.permission.VIBRATE'', 2),
     (''android.permission.WAKE_LOCK'', 5)]"

text \<open>
  The keys of \<open>MALICIOUS_PATTERNS\<close> are regular expressions; the Python literal
  \<open>"exec\\("\<close> is the five characters e, x, e, c, backslash followed by an opening
  parenthesis. The dictionary is iterated in insertion order.
\<close>

definition bsl :: string where
  "bsl = [CHR 0x5C]"

definition MALICIOUS_PATTERNS :: "(string \<times> int) list" where
  "MALICIOUS_PATTERNS =
    [(''exec'' @ bsl @ ''('', 200),
     (''runtime'' @ bsl @ ''.exec'', 200),
     (''getRuntime'' @ bsl @ ''('' @ bsl @ '')'' @ bsl @ ''.exec'', 200),
     (''su'' @ bsl @ ''b'', 150),
     (''superuser'', 150),
     (''root'' @ bsl @ ''b'', 150),
     (''cryptography'', 50),
     (''encrypt'', 50),
     (''decrypt'', 50),
     (''base64'', 30),
     (''getDeviceId'', 100),
     (''getSubscriberId'', 100),
     (''getSimSerialNumber'', 100),
     (''getLine1Number'', 100)]"

definition KNOWN_GOOD_DOMAINS :: "string list" where
  "KNOWN_GOOD_DOMAINS =
    [''google.com'', ''googleapis.com'', ''gstatic.com'', ''firebase.com'',
     ''facebook.com'', ''fbcdn.net'', ''apple.com'', ''icloud.com'',
     ''microsoft.com'', ''azure.com'', ''amazon.com'', ''aws.com'',
     ''twitter.com'', ''github.com'', ''android.com'', ''googletagmanager.com'']"

definition KNOWN_BAD_DOMAINS :: "string list" where
  "KNOWN_BAD_DOMAINS = [''malicious-domain.com'', ''evil-server.net'', ''data-stealer.org'']"

section \<open>Permission risk\<close>

text \<open>\<open>PERMISSION_SCORES.get(perm, 0)\<close>\<close>

definition permission_score_of :: "string \<Rightarrow> int" where
  "permission_score_of perm =
     (case map_of PERMISSION_SCORES perm of None \<Rightarrow> 0 | Some v \<Rightarrow> v)"

definition get_permission_risk :: "string \<Rightarrow> string" where
  "get_permission_risk permission =
     (let score = permission_score_of permission
      in if 100 \<le> score then ''High Risk''
         else if 50 \<le> score then ''Medium Risk''
         else ''Low Risk'')"

text \<open>
  The loop of \<open>calculate_permission_score\<close>, with its two accumulators \<open>score\<close> and
  \<open>high_risk_perms\<close>.
\<close>

fun permission_loop :: "string list \<Rightarrow> int \<Rightarrow> string list \<Rightarrow> int \<times> string list" where
  "permission_loop [] score high_risk_perms = (score, high_risk_perms)"
| "permission_loop (perm # perms) score high_risk_perms =
     (let perm_score = permission_score_of perm
      in permission_loop perms (score + perm_score)
           (if 100 \<le> perm_score then high_risk_perms @ [perm] else high_risk_perms))"

definition calculate_permission_score :: "string list \<Rightarrow> int \<times> string list" where
  "calculate_permission_score permissions =
     (let (score, high_risk_perms) = permission_loop permissions 0 [];
          risk_multiplier =
            float_add (int_to_float 1)
              (float_mul (int_to_float (int (length high_risk_perms))) (float_literal 2 1));
          score' = float_mul (int_to_float score) risk_multiplier
      in (py_int score', high_risk_perms))"

section \<open>Certificate risk\<close>

text \<open>
  The argument is what \<open>apk.get_certificates()\<close> does: it raises, or returns the list
  of certificates (their content is never read).
\<close>

definition calculate_certificate_risk :: "'cert list raising \<Rightarrow> int \<times> string" where
  "calculate_certificate_risk got =
     (case got of
        Inr certificates \<Rightarrow>
          if certificates \<noteq> [] then (0, ''Certificate found (basic check)'')
          else (100, ''No certificate found'')
      | Inl e \<Rightarrow> (75, ''Certificate analysis failed: '' @ e))"

section \<open>Package facts\<close>

text \<open>
  An entry of the string pool is either an item that the scanners turn into text
  (\<open>bytes\<close> decoded with errors ignored, or \<open>str(s)\<close>), or an item whose conversion
  raises \<open>UnicodeDecodeError\<close> or \<open>AttributeError\<close>.
\<close>

datatype pool_item = Text string | Undecodable

type_synonym cert = string

text \<open>
  What the parsed package answers. An accessor guarded by \<open>or\<close> in the source may
  return \<open>None\<close>; \<open>get_strings\<close> and \<open>get_certificates\<close> are called inside
  \<open>try\<close> blocks and may raise.
\<close>

record apk =
  get_permissions :: "string list option"
  get_app_name :: "string option"
  get_package :: "string option"
  get_androidversion_name :: "string option"
  get_androidversion_code :: "string option"
  get_strings :: "pool_item list raising"
  get_certificates :: "cert list raising"

text \<open>\<open>v or d\<close> for a string or \<open>None\<close>: the default replaces \<open>None\<close> and \<open>""\<close>.\<close>

definition py_or :: "string option \<Rightarrow> string \<Rightarrow> string" where
  "py_or v d = (case v of None \<Rightarrow> d | Some s \<Rightarrow> if s = [] then d else s)"

section \<open>Domain reputation scanner\<close>

record url_finding =
  u_url :: string
  u_reason :: string
  u_score :: int

text \<open>
  \<open>url_pattern = re.compile(r'https?://([a-zA-Z0-9.-]+)[/?]')\<close>.
  \<open>match_url text\<close> matches the pattern at the start of \<open>text\<close> and returns the
  captured group and the text after the match. The group is greedy; a shorter group
  would be followed by a character of the class, never by \<open>/\<close> or \<open>?\<close>, so only the
  longest run can match. Likewise \<open>s?\<close> has one way to match.
\<close>

definition is_host_char :: "char \<Rightarrow> bool" where
  "is_host_char c =
     (let n = (of_char c :: nat)
      in (97 \<le> n \<and> n \<le> 122) \<or> (65 \<le> n \<and> n \<le> 90) \<or> (48 \<le> n \<and> n \<le> 57)
         \<or> c = CHR ''.'' \<or> c = CHR ''-'')"

definition strip_prefix :: "string \<Rightarrow> string \<Rightarrow> string option" where
  "strip_prefix pre text =
     (if take (length pre) text = pre then Some (drop (length pre) text) else None)"

definition match_url :: "string \<Rightarrow> (string \<times> string) option" where
  "match_url text =
     (case strip_prefix ''http'' text of
        None \<Rightarrow> None
      | Some r1 \<Rightarrow>
          (case (case strip_prefix ''s://'' r1 of
                   Some r \<Rightarrow> Some r
                 | None \<Rightarrow> strip_prefix ''://'' r1) of
             None \<Rightarrow> None
           | Some r2 \<Rightarrow>
               (case dropWhile is_host_char r2 of
                  [] \<Rightarrow> None
                | c # rest \<Rightarrow>
                    if takeWhile is_host_char r2 \<noteq> [] \<and> (c = CHR ''/'' \<or> c = CHR ''?'')
                    then Some (takeWhile is_host_char r2, rest) else None)))"

text \<open>
  \<open>url_pattern.findall(text)\<close>: the groups of the non-overlapping matches, found from
  left to right; after a match the search resumes behind it.
\<close>

function findall :: "string \<Rightarrow> string list" where
  "findall [] = []"
| "findall (c # cs) =
     (case match_url (c # cs) of
        Some (domain, rest) \<Rightarrow> domain # findall rest
      | None \<Rightarrow> findall cs)"
  by pat_completeness auto
termination
proof (relation "measure length")
  fix c cs x2 domain rest
  assume m: "match_url (c # cs) = Some x2" and x2: "(domain, rest) = x2"
  have sp: "length r \<le> length t" if "strip_prefix pre t = Some r" for pre t r
    using that by (auto simp: strip_prefix_def split: if_splits)
  have dw: "length r < length t" if "dropWhile is_host_char t = d # r" for t d r
    using that length_dropWhile_le [of is_host_char t] by simp
  from m x2 obtain r1 r2 d where
    r1: "strip_prefix ''http'' (c # cs) = Some r1" and
    r2: "strip_prefix ''s://'' r1 = Some r2 \<or> strip_prefix ''://'' r1 = Some r2" and
    d: "dropWhile is_host_char r2 = d # rest"
    unfolding match_url_def
    by (auto split: option.splits list.splits if_splits)
  have "length rest < length r2" using d by (rule dw)
  moreover have "length r2 \<le> length r1" using r2 sp by blast
  moreover have "length r1 \<le> length (c # cs)" using r1 by (rule sp)
  ultimately show "(rest, c # cs) \<in> measure length" by simp
qed simp_all

text \<open>The body of \<open>for domain in urls\<close>, appending to \<open>suspicious_urls\<close>.\<close>

fun domain_loop :: "string list \<Rightarrow> url_finding list \<Rightarrow> url_finding list" where
  "domain_loop [] suspicious_urls = suspicious_urls"
| "domain_loop (domain # urls) suspicious_urls =
     domain_loop urls
       (if length domain < 5 then suspicious_urls
        else if domain \<in> set KNOWN_BAD_DOMAINS then
          suspicious_urls @
            [\<lparr>u_url = domain, u_reason = ''Known malicious domain'', u_score = 200\<rparr>]
        else if domain \<notin> set KNOWN_GOOD_DOMAINS then
          (if list_ex (\<lambda>part. py_in part domain) [''api'', ''cloud'', ''server'']
           then suspicious_urls @
                  [\<lparr>u_url = domain, u_reason = ''Suspicious external domain'', u_score = 50\<rparr>]
           else suspicious_urls)
        else suspicious_urls)"

text \<open>The body of \<open>for s in apk.get_strings()\<close>.\<close>

fun urls_loop :: "pool_item list \<Rightarrow> url_finding list \<Rightarrow> url_finding list" where
  "urls_loop [] suspicious_urls = suspicious_urls"
| "urls_loop (Undecodable # strings) suspicious_urls = urls_loop strings suspicious_urls"
| "urls_loop (Text text # strings) suspicious_urls =
     urls_loop strings (domain_loop (findall text) suspicious_urls)"

definition analyze_urls :: "apk \<Rightarrow> url_finding list" where
  "analyze_urls a =
     (case get_strings a of
        Inl e \<Rightarrow> []
      | Inr strings \<Rightarrow> urls_loop strings [])"

section \<open>Pattern signal scanner\<close>

record pattern_finding =
  p_pattern :: string
  p_score :: int
  p_location :: string

text \<open>
  \<open>re.search(pattern, text, re.IGNORECASE)\<close> for the regular expressions of the
  catalog: a sequence of literal characters (a backslash before a punctuation character
  makes it literal) and the assertion \<open>\b\<close>. A literal matches a character of the text
  when both have the same lower case; \<open>\b\<close> holds where exactly one of the two
  neighbouring positions holds a word character (\<open>\w\<close>: letters, digits and the
  underscore; outside the text counts as no word character).
\<close>

datatype atom = Lit char | WordBoundary

fun parse_pattern :: "string \<Rightarrow> atom list" where
  "parse_pattern [] = []"
| "parse_pattern [c] = [Lit c]"
| "parse_pattern (c # d # cs) =
     (if c = CHR 0x5C
      then (if d = CHR ''b'' then WordBoundary else Lit d) # parse_pattern cs
      else Lit c # parse_pattern (d # cs))"

definition is_word_char :: "char \<Rightarrow> bool" where
  "is_word_char c =
     (let n = (of_char c :: nat)
      in (48 \<le> n \<and> n \<le> 57) \<or> (65 \<le> n \<and> n \<le> 90) \<or> n = 95 \<or> (97 \<le> n \<and> n \<le> 122)
         \<or> n = 170 \<or> n = 178 \<or> n = 179 \<or> n = 181 \<or> n = 185 \<or> n = 186
         \<or> (188 \<le> n \<and> n \<le> 190) \<or> (192 \<le> n \<and> n \<noteq> 215 \<and> n \<noteq> 247))"

definition at_boundary :: "char option \<Rightarrow> string \<Rightarrow> bool" where
  "at_boundary prev text =
     ((case prev of None \<Rightarrow> False | Some p \<Rightarrow> is_word_char p)
      \<noteq> (case text of [] \<Rightarrow> False | t # ts \<Rightarrow> is_word_char t))"

fun match_atoms :: "atom list \<Rightarrow> char option \<Rightarrow> string \<Rightarrow> bool" where
  "match_atoms [] prev text = True"
| "match_atoms (WordBoundary # as) prev text =
     (at_boundary prev text \<and> match_atoms as prev text)"
| "match_atoms (Lit c # as) prev [] = False"
| "match_atoms (Lit c # as) prev (t # ts) =
     (py_lower_char c = py_lower_char t \<and> match_atoms as (Some t) ts)"

fun search_from :: "atom list \<Rightarrow> char option \<Rightarrow> string \<Rightarrow> bool" where
  "search_from as prev [] = match_atoms as prev []"
| "search_from as prev (t # ts) =
     (match_atoms as prev (t # ts) \<or> search_from as (Some t) ts)"

definition re_search_ignorecase :: "string \<Rightarrow> string \<Rightarrow> bool" where
  "re_search_ignorecase pattern text = search_from (parse_pattern pattern) None text"

text \<open>The body of \<open>for pattern, score in MALICIOUS_PATTERNS.items()\<close>.\<close>

fun pattern_loop ::
  "(string \<times> int) list \<Rightarrow> string \<Rightarrow> pattern_finding list \<Rightarrow> pattern_finding list" where
  "pattern_loop [] text suspicious_patterns = suspicious_patterns"
| "pattern_loop ((pattern, score) # items) text suspicious_patterns =
     pattern_loop items text
       (if re_search_ignorecase pattern text
        then suspicious_patterns @
               [\<lparr>p_pattern = pattern, p_score = score, p_location = ''APK strings''\<rparr>]
        else suspicious_patterns)"

fun strings_loop :: "pool_item list \<Rightarrow> pattern_finding list \<Rightarrow> pattern_finding list" where
  "strings_loop [] suspicious_patterns = suspicious_patterns"
| "strings_loop (Undecodable # strings) suspicious_patterns =
     strings_loop strings suspicious_patterns"
| "strings_loop (Text text # strings) suspicious_patterns =
     strings_loop strings (pattern_loop MALICIOUS_PATTERNS text suspicious_patterns)"

text \<open>
  \<open>analyze_code_patterns(apk_path)\<close> parses the package again; its argument is what
  \<open>APK(apk_path)\<close> does.
\<close>

definition analyze_code_patterns :: "apk raising \<Rightarrow> pattern_finding list" where
  "analyze_code_patterns opened =
     (case opened of
        Inl e \<Rightarrow> []
      | Inr a \<Rightarrow>
          (case get_strings a of
             Inl e \<Rightarrow> []
           | Inr strings \<Rightarrow> strings_loop strings []))"

section \<open>Safe apps cache\<close>

text \<open>A value produced by \<open>json.load\<close>; the keys of an object are distinct.\<close>

datatype json =
    JNull
  | JBool bool
  | JNum rat
  | JStr string
  | JArr "json list"
  | JObj "(string \<times> json) list"

text \<open>
  The safe-apps file as \<open>load_safe_apps\<close> meets it: absent, or opening or parsing it
  raises, or it parses to a value.
\<close>

datatype safe_file = Missing | Unreadable string | Parsed json

text \<open>
  The two module globals. A time is a count of microseconds, the resolution of
  \<open>datetime\<close>.
\<close>

record cache_state =
  safe_apps_cache :: "string set option"
  safe_apps_last_loaded :: "int option"

text \<open>
  \<open>for app in safe_apps_json\<close>: a list gives its elements, an object its keys, a string
  its characters; anything else is not iterable (\<open>None\<close> stands for the \<open>TypeError\<close>).
\<close>

definition json_iter :: "json \<Rightarrow> json list option" where
  "json_iter v =
     (case v of
        JArr xs \<Rightarrow> Some xs
      | JObj kvs \<Rightarrow> Some (map (\<lambda>kv. JStr (fst kv)) kvs)
      | JStr s \<Rightarrow> Some (map (\<lambda>c. JStr [c]) s)
      | _ \<Rightarrow> None)"

text \<open>
  \<open>app.get("package")\<close>: only an object has \<open>get\<close> (\<open>None\<close> stands for the
  \<open>AttributeError\<close>); a missing key gives Python's \<open>None\<close>, which is \<open>JNull\<close>.
\<close>

definition json_get :: "json \<Rightarrow> string \<Rightarrow> json option" where
  "json_get app key =
     (case app of
        JObj kvs \<Rightarrow> Some (case map_of kvs key of None \<Rightarrow> JNull | Some v \<Rightarrow> v)
      | _ \<Rightarrow> None)"

text \<open>The truth value of \<open>if package:\<close>.\<close>

definition truthy :: "json \<Rightarrow> bool" where
  "truthy v =
     (case v of
        JNull \<Rightarrow> False
      | JBool b \<Rightarrow> b
      | JNum r \<Rightarrow> r \<noteq> 0
      | JStr s \<Rightarrow> s \<noteq> []
      | JArr xs \<Rightarrow> xs \<noteq> []
      | JObj kvs \<Rightarrow> kvs \<noteq> [])"

text \<open>
  The loop filling the local set \<open>safe_apps\<close>; \<open>None\<close> when an iteration raises
  (\<open>app\<close> has no \<open>get\<close>, or a true \<open>package\<close> is no string and has no \<open>lower\<close>).
\<close>

fun safe_apps_loop :: "json list \<Rightarrow> string set \<Rightarrow> string set option" where
  "safe_apps_loop [] safe_apps = Some safe_apps"
| "safe_apps_loop (app # apps) safe_apps =
     (case json_get app ''package'' of
        None \<Rightarrow> None
      | Some package \<Rightarrow>
          if truthy package then
            (case package of
               JStr s \<Rightarrow> safe_apps_loop apps (insert (py_strip (py_lower s)) safe_apps)
             | _ \<Rightarrow> None)
          else safe_apps_loop apps safe_apps)"

text \<open>\<open>timedelta.total_seconds()\<close>: the microseconds divided by \<open>10**6\<close>, as a float.\<close>

definition total_seconds :: "int \<Rightarrow> rat" where
  "total_seconds us = round_double (of_int us / 1000000)"

text \<open>
  \<open>load_safe_apps\<close> reads the file, the clock when it tests the cache (\<open>now\<close>) and
  the clock when it stores a fresh set (\<open>now'\<close>); it returns the set and the globals.
\<close>

definition cache_valid :: "int \<Rightarrow> cache_state \<Rightarrow> bool" where
  "cache_valid now st =
     (case safe_apps_cache st of
        None \<Rightarrow> False
      | Some cached \<Rightarrow>
          (case safe_apps_last_loaded st of
             None \<Rightarrow> False
           | Some loaded \<Rightarrow> total_seconds (now - loaded) < 300))"

definition load_safe_apps ::
  "safe_file \<Rightarrow> int \<Rightarrow> int \<Rightarrow> cache_state \<Rightarrow> string set \<times> cache_state" where
  "load_safe_apps file now now' st =
     (if cache_valid now st then (the (safe_apps_cache st), st)
      else
        (case file of
           Missing \<Rightarrow> ({}, st)
         | Unreadable e \<Rightarrow> ({}, st)
         | Parsed safe_apps_json \<Rightarrow>
             (case json_iter safe_apps_json of
                None \<Rightarrow> ({}, st)
              | Some apps \<Rightarrow>
                  (case safe_apps_loop apps {} of
                     None \<Rightarrow> ({}, st)
                   | Some safe_apps \<Rightarrow>
                       (safe_apps,
                        \<lparr>safe_apps_cache = Some safe_apps,
                         safe_apps_last_loaded = Some now'\<rparr>)))))"

section \<open>Risk aggregation\<close>

text \<open>
  What one run of \<open>analyze_apk\<close> finds outside itself: whether the path exists, what
  \<open>APK(apk_path)\<close> and \<open>generate_apk_hash(apk_path)\<close> do, the safe-apps file, the
  two clock readings of \<open>load_safe_apps\<close> and the text of the analysis timestamp.
\<close>

record world =
  path_exists :: bool
  open_apk :: "apk raising"
  generate_apk_hash :: "string raising"
  safe_apps_file :: safe_file
  clock_check :: int
  clock_store :: int
  timestamp_iso :: string

record scan_report =
  app_name :: string
  package :: string
  version :: string
  apk_hash :: string
  permissions :: "(string \<times> string) list"
  permission_score :: int
  url_score :: int
  code_analysis_score :: int
  certificate_score :: int
  certificate_notes :: string
  total_score :: int
  overall_risk :: string
  risk_note :: string
  high_risk_permissions :: "string list"
  suspicious_urls :: "url_finding list"
  suspicious_code_patterns :: "pattern_finding list"
  is_known_safe_app :: bool
  analysis_timestamp :: string
  false_positive_reported :: bool

text \<open>The dictionary returned: \<open>{"error": msg}\<close> or the full result.\<close>

datatype analysis_result = Error string | Report scan_report

text \<open>
  The safe app discount (lines 273-278): the new \<open>total_score\<close>, an \<open>int\<close> or a
  \<open>float\<close>, as the number it denotes. \<open>max(0, x)\<close> is \<open>x\<close> when \<open>x > 0\<close>.
\<close>

definition discounted_total :: "bool \<Rightarrow> int \<Rightarrow> rat" where
  "discounted_total known_safe pre_total =
     (if known_safe
      then max 0 (float_mul (int_to_float pre_total) (float_literal 3 1))
      else of_int pre_total)"

definition risk_note_of :: "bool \<Rightarrow> string" where
  "risk_note_of known_safe =
     (if known_safe then ''Known safe app (score reduced)'' else ''Unknown app'')"

text \<open>The risk level (lines 280-288).\<close>

definition risk_level_of :: "rat \<Rightarrow> string" where
  "risk_level_of t =
     (if 500 < t then ''Dangerous''
      else if 200 < t then ''Potentially Risky''
      else if 50 < t then ''Moderate Risk''
      else ''Likely Safe'')"

definition analyze_apk :: "string \<Rightarrow> world \<Rightarrow> cache_state \<Rightarrow> analysis_result \<times> cache_state" where
  "analyze_apk apk_path w st =
     (if \<not> path_exists w then (Error (''APK file not found: '' @ apk_path), st)
      else
        (case open_apk w of
           Inl e \<Rightarrow> (Error e, st)
         | Inr a \<Rightarrow>
             let perms = (case get_permissions a of None \<Rightarrow> [] | Some ps \<Rightarrow> ps);
                 name = py_or (get_app_name a) ''Unknown'';
                 package_name = py_or (get_package a) ''Unknown'';
                 version_name = py_or (get_androidversion_name a) ''Unknown'';
                 version_code = py_or (get_androidversion_code a) ''Unknown''
             in if package_name = ''Unknown''
                then (Error ''Could not extract package name from APK'', st)
                else
                  (case generate_apk_hash w of
                     Inl e \<Rightarrow> (Error e, st)
                   | Inr hash \<Rightarrow>
                       let (safe_apps, st') =
                             load_safe_apps (safe_apps_file w) (clock_check w) (clock_store w) st;
                           normalized_package = py_strip (py_lower package_name);
                           known_safe = (normalized_package \<in> safe_apps);
                           (perm_score, high_risk_perms) = calculate_permission_score perms;
                           urls = analyze_urls a;
                           url_sum = sum_list (map u_score urls);
                           code_patterns = analyze_code_patterns (open_apk w);
                           code_score = sum_list (map p_score code_patterns);
                           (cert_score, cert_reason) =
                             calculate_certificate_risk (get_certificates a);
                           pre_total = perm_score + url_sum + code_score + cert_score;
                           post_total = discounted_total known_safe pre_total
                       in (Report
                             \<lparr>app_name = name,
                              package = package_name,
                              version = version_name @ '' ('' @ version_code @ '')'',
                              apk_hash = hash,
                              permissions = map (\<lambda>p. (p, get_permission_risk p)) perms,
                              permission_score = perm_score,
                              url_score = url_sum,
                              code_analysis_score = code_score,
                              certificate_score = cert_score,
                              certificate_notes = cert_reason,
                              total_score = py_int post_total,
                              overall_risk = risk_level_of post_total,
                              risk_note = risk_note_of known_safe,
                              high_risk_permissions = high_risk_perms,
                              suspicious_urls = urls,
                              suspicious_code_patterns = code_patterns,
                              is_known_safe_app = known_safe,
                              analysis_timestamp = timestamp_iso w,
                              false_positive_reported = False\<rparr>,
                           st'))))"

section \<open>The specification's formulas\<close>

text \<open>
  The permission score as the specification words it: the raw sum of the table scores,
  the high-risk permissions \<open>H\<close> in input order, \<open>k\<close> their number, and
  \<open>int(raw_sum * (1 + 0.2 * k))\<close> in Python's arithmetic.
\<close>

definition permission_score_spec :: "string list \<Rightarrow> int \<times> string list" where
  "permission_score_spec ps =
     (let raw_sum = sum_list (map permission_score_of ps);
          H = filter (\<lambda>p. 100 \<le> permission_score_of p) ps;
          k = int (length H)
      in (py_int (float_mul (int_to_float raw_sum)
                   (float_add (int_to_float 1) (float_mul (float_literal 2 1) (int_to_float k)))),
          H))"

text \<open>
  The pattern findings as the specification words them: for every string of the pool
  that decodes, in order, one finding per catalog entry whose pattern matches it.
\<close>

definition finding_of :: "string \<times> int \<Rightarrow> pattern_finding" where
  "finding_of entry = \<lparr>p_pattern = fst entry, p_score = snd entry, p_location = ''APK strings''\<rparr>"

definition matches_of :: "string \<Rightarrow> (string \<times> int) list" where
  "matches_of text = filter (\<lambda>entry. re_search_ignorecase (fst entry) text) MALICIOUS_PATTERNS"

definition pattern_findings_spec :: "pool_item list \<Rightarrow> pattern_finding list" where
  "pattern_findings_spec pool =
     concat (map (\<lambda>item. case item of
                            Text text \<Rightarrow> map finding_of (matches_of text)
                          | Undecodable \<Rightarrow> []) pool)"

text \<open>
  The domain findings as the specification words them: a host shorter than 5 characters
  is dropped; the first rule that applies decides.
\<close>

definition classify_domain :: "string \<Rightarrow> url_finding list" where
  "classify_domain host =
     (if length host < 5 then []
      else if host \<in> set KNOWN_BAD_DOMAINS then
        [\<lparr>u_url = host, u_reason = ''Known malicious domain'', u_score = 200\<rparr>]
      else if host \<notin> set KNOWN_GOOD_DOMAINS \<and>
              (py_in ''api'' host \<or> py_in ''cloud'' host \<or> py_in ''server'' host) then
        [\<lparr>u_url = host, u_reason = ''Suspicious external domain'', u_score = 50\<rparr>]
      else [])"

definition hosts_of :: "pool_item \<Rightarrow> string list" where
  "hosts_of item = (case item of Text text \<Rightarrow> findall text | Undecodable \<Rightarrow> [])"

definition domain_findings_spec :: "pool_item list \<Rightarrow> url_finding list" where
  "domain_findings_spec pool = concat (map classify_domain (concat (map hosts_of pool)))"

text \<open>What makes a refresh of the safe-apps set fail: no file, or a raise while reading it.\<close>

definition refresh_fails :: "safe_file \<Rightarrow> bool" where
  "refresh_fails file =
     (case file of
        Missing \<Rightarrow> True
      | Unreadable e \<Rightarrow> True
      | Parsed j \<Rightarrow>
          (case json_iter j of
             None \<Rightarrow> True
           | Some apps \<Rightarrow> safe_apps_loop apps {} = None))"

section \<open>Example inputs\<close>

text \<open>
  A signed package of an allowlisted bank (the allowlist normalises the identifier), with
  one known-bad URL, an undecodable string and three pattern hits in its pool; the same
  package with a signing block whose extraction raises; the same package without an
  identifier, in a world where hashing would raise; a package holding only a given
  string pool; and a cache loaded at time 0.
\<close>

definition example_apk :: apk where
  "example_apk =
     \<lparr>get_permissions = Some [],
      get_app_name = Some ''Bank'',
      get_package = Some '' Com.Example.BANK'',
      get_androidversion_name = Some ''1.0'',
      get_androidversion_code = None,
      get_strings = Inr [Text ''http://evil-server.net/a'', Undecodable, Text ''su'',
                         Text ''su'', Text ''getDeviceId''],
      get_certificates = Inr [''cert'']\<rparr>"

definition example_world :: world where
  "example_world =
     \<lparr>path_exists = True,
      open_apk = Inr example_apk,
      generate_apk_hash = Inr ''ab12'',
      safe_apps_file = Parsed (JArr [JObj [(''name'', JStr ''Bank''),
                                           (''package'', JStr ''com.example.bank '')]]),
      clock_check = 0,
      clock_store = 7,
      timestamp_iso = ''2024-01-01T00:00:00''\<rparr>"

definition expired_cache :: cache_state where
  "expired_cache =
     \<lparr>safe_apps_cache = Some {''com.example.bank''}, safe_apps_last_loaded = Some 0\<rparr>"


definition empty_cache :: cache_state where
  "empty_cache = \<lparr>safe_apps_cache = None, safe_apps_last_loaded = None\<rparr>"

definition apk_with_strings :: "pool_item list \<Rightarrow> apk" where
  "apk_with_strings pool =
     \<lparr>get_permissions = None, get_app_name = None, get_package = Some ''com.example.app'',
      get_androidversion_name = None, get_androidversion_code = None,
      get_strings = Inr pool, get_certificates = Inr [''cert'']\<rparr>"

definition unsigned_world :: world where
  "unsigned_world =
     example_world\<lparr>open_apk := Inr (example_apk\<lparr>get_certificates := Inl ''bad signature''\<rparr>)\<rparr>"

definition anonymous_world :: world where
  "anonymous_world =
     example_world\<lparr>open_apk := Inr (example_apk\<lparr>get_package := None\<rparr>),
                   generate_apk_hash := Inl ''Permission denied''\<rparr>"

section \<open>Properties\<close>

text \<open>
  C10: \<open>get_permission_risk\<close> answers "High Risk" exactly when the table score of the
  permission is at least 100, "Medium Risk" exactly when it is at least 50 and below
  100, and "Low Risk" otherwise; a permission absent from the table has score 0 and is
  therefore "Low Risk".
\<close>

theorem get_permission_risk_thresholds:
  "(get_permission_risk p = ''High Risk'' \<longleftrightarrow> 100 \<le> permission_score_of p) \<and>
   (get_permission_risk p = ''Medium Risk'' \<longleftrightarrow>
      50 \<le> permission_score_of p \<and> permission_score_of p < 100) \<and>
   (get_permission_risk p = ''Low Risk'' \<longleftrightarrow> permission_score_of p < 50) \<and>
   (map_of PERMISSION_SCORES p = None \<longrightarrow>
      permission_score_of p = 0 \<and> get_permission_risk p = ''Low Risk'')"
  by (auto simp: get_permission_risk_def permission_score_of_def Let_def)

theorem get_permission_risk_thresholds_witness:
  "map_of PERMISSION_SCORES ''android.permission.FLASHLIGHT'' = None \<and>
   get_permission_risk ''android.permission.FLASHLIGHT'' = ''Low Risk'' \<and>
   get_permission_risk ''android.permission.CAMERA'' = ''Medium Risk'' \<and>
   get_permission_risk ''android.permission.GET_ACCOUNTS'' = ''High Risk''"
proof -
  have absent: "map_of PERMISSION_SCORES ''android.permission.FLASHLIGHT'' = None"
    by (simp add: PERMISSION_SCORES_def)
  have cam: "permission_score_of ''android.permission.CAMERA'' = 80"
    by (simp add: permission_score_of_def PERMISSION_SCORES_def)
  have acc: "permission_score_of ''android.permission.GET_ACCOUNTS'' = 100"
    by (simp add: permission_score_of_def PERMISSION_SCORES_def)
  show ?thesis
    using absent cam acc
      get_permission_risk_thresholds [of "''android.permission.FLASHLIGHT''"]
      get_permission_risk_thresholds [of "''android.permission.CAMERA''"]
      get_permission_risk_thresholds [of "''android.permission.GET_ACCOUNTS''"]
    by simp
qed

subsection \<open>Rounding to a double\<close>

lemma pow2_power_int: "pow2 e = power_int 2 e"
  by (simp add: pow2_def power_int_def power_one_over)

lemma pow2_pos: "0 < pow2 e"
  by (simp add: pow2_def)

lemma pow2_add: "pow2 (a + b) = pow2 a * pow2 b"
  by (simp add: pow2_power_int power_int_add)

lemma pow2_mono: "a \<le> b \<Longrightarrow> pow2 a \<le> pow2 b"
  by (simp add: pow2_power_int power_int_increasing)

lemma pow2_nat: "pow2 (int n) = 2 ^ n"
  by (simp add: pow2_def)

lemma quotient_of_pos:
  assumes "0 < x" "quotient_of x = (p, q)"
  shows "0 < p" "0 < q" "x = of_int p / of_int q"
proof -
  show q: "0 < q" using assms(2) by (rule quotient_of_denom_pos)
  show x: "x = of_int p / of_int q" using assms(2) by (rule quotient_of_div)
  show "0 < p" using assms(1) q x by (simp add: zero_less_divide_iff)
qed

lemma expo_le:
  assumes "0 < x"
  shows "pow2 (expo x) \<le> x"
proof -
  obtain p q where pq: "quotient_of x = (p, q)" by (cases "quotient_of x")
  note pos = quotient_of_pos [OF assms pq]
  let ?e0 = "bitlen p - bitlen q"
  show ?thesis
  proof (cases "pow2 ?e0 \<le> x")
    case True
    then show ?thesis by (simp add: expo_def pq)
  next
    case False
    have bp: "2 ^ nat (bitlen p - 1) \<le> p" and bq: "q < 2 ^ nat (bitlen q)"
      using bitlen_bounds [of p] bitlen_bounds [of q] pos by auto
    have lp: "1 \<le> bitlen p" using pos(1) bitlen_nonneg [of p] bitlen_eq_zero_iff [of p] by linarith
    have "pow2 (bitlen p - 1) \<le> of_int p"
    proof -
      have "pow2 (bitlen p - 1) = of_int (2 ^ nat (bitlen p - 1))"
        using lp by (simp add: pow2_def)
      also have "\<dots> \<le> of_int p" using bp by (simp only: of_int_le_iff)
      finally show ?thesis .
    qed
    moreover have "of_int q \<le> pow2 (bitlen q)"
    proof -
      have "(of_int q :: rat) \<le> of_int (2 ^ nat (bitlen q))"
        using bq by (simp only: of_int_le_iff)
      also have "\<dots> = pow2 (bitlen q)"
        using bitlen_nonneg [of q] by (simp add: pow2_def)
      finally show ?thesis .
    qed
    ultimately have "pow2 (bitlen p - 1) / pow2 (bitlen q) \<le> of_int p / of_int q"
      using pos pow2_pos by (intro frac_le) (auto simp: less_imp_le)
    moreover have "pow2 (?e0 - 1) = pow2 (bitlen p - 1) / pow2 (bitlen q)"
    proof -
      have "pow2 (bitlen p - 1) = pow2 ((?e0 - 1) + bitlen q)" by simp
      also have "\<dots> = pow2 (?e0 - 1) * pow2 (bitlen q)" by (rule pow2_add)
      finally show ?thesis using pow2_pos [of "bitlen q"] by simp
    qed
    ultimately have "pow2 (?e0 - 1) \<le> x" using pos(3) by simp
    then show ?thesis using False by (simp add: expo_def pq)
  qed
qed

lemma round_half_even_upper: "of_int (round_half_even y) \<le> y + 1 / 2"
proof -
  have f: "of_int \<lfloor>y\<rfloor> \<le> y" by simp
  show ?thesis
  proof (cases "y - of_int \<lfloor>y\<rfloor> < 1 / 2")
    case True
    then have "round_half_even y = \<lfloor>y\<rfloor>" by (simp add: round_half_even_def Let_def)
    then have "(of_int (round_half_even y) :: rat) = of_int \<lfloor>y\<rfloor>" by simp
    with f show ?thesis by linarith
  next
    case False
    then have "round_half_even y \<le> \<lfloor>y\<rfloor> + 1" by (simp add: round_half_even_def Let_def)
    then have "(of_int (round_half_even y) :: rat) \<le> of_int (\<lfloor>y\<rfloor> + 1)"
      by (simp only: of_int_le_iff)
    with False show ?thesis by simp
  qed
qed

lemma round_half_even_nonneg: "0 \<le> y \<Longrightarrow> 0 \<le> round_half_even y"
  by (auto simp: round_half_even_def Let_def)

lemma round_double_nonneg:
  assumes "0 \<le> x"
  shows "0 \<le> round_double x"
proof (cases "x = 0")
  case True
  then show ?thesis by (simp add: round_double_def)
next
  case False
  with assms have x: "0 < x" by simp
  have "0 \<le> x * pow2 (52 - expo x)"
    using x pow2_pos [of "52 - expo x"] by simp
  then have "0 \<le> round_half_even (x * pow2 (52 - expo x))"
    by (rule round_half_even_nonneg)
  then have "(0::rat) \<le> of_int (round_half_even (x * pow2 (52 - expo x))) * pow2 (expo x - 52)"
    using pow2_pos [of "expo x - 52"] by simp
  then show ?thesis using x by (simp add: round_double_def Let_def)
qed

lemma round_double_upper:
  assumes "0 \<le> x"
  shows "round_double x \<le> 3 / 2 * x"
proof (cases "x = 0")
  case True
  then show ?thesis by (simp add: round_double_def)
next
  case False
  with assms have x: "0 < x" by simp
  let ?e = "expo x"
  let ?m = "round_half_even (x * pow2 (52 - ?e))"
  have rd: "round_double x = of_int ?m * pow2 (?e - 52)"
    using x by (simp add: round_double_def Let_def)
  have "of_int ?m * pow2 (?e - 52) \<le> (x * pow2 (52 - ?e) + 1 / 2) * pow2 (?e - 52)"
    using round_half_even_upper [of "x * pow2 (52 - ?e)"] pow2_pos [of "?e - 52"]
    by (simp only: mult_le_cancel_right_pos)
  also have "\<dots> = x * (pow2 (52 - ?e) * pow2 (?e - 52)) + pow2 (?e - 52) / 2"
    by (simp add: algebra_simps)
  also have "pow2 (52 - ?e) * pow2 (?e - 52) = 1"
    by (simp add: pow2_add [symmetric] pow2_def)
  also have "x * 1 + pow2 (?e - 52) / 2 \<le> x + pow2 ?e / 2"
    using pow2_mono [of "?e - 52" ?e] by simp
  also have "\<dots> \<le> x + x / 2"
    using expo_le [OF x] by simp
  finally show ?thesis using rd by simp
qed

subsection \<open>Permission score\<close>

lemma permission_loop_eq:
  "permission_loop ps s h =
     (s + sum_list (map permission_score_of ps),
      h @ filter (\<lambda>p. 100 \<le> permission_score_of p) ps)"
  by (induction ps arbitrary: s h) (simp_all add: Let_def)

lemma sms_scores:
  "permission_score_of ''android.permission.READ_SMS'' = 200"
  "permission_score_of ''android.permission.SEND_SMS'' = 200"
  by (simp_all add: permission_score_of_def PERMISSION_SCORES_def)

lemma multiplier_two: "float_add (int_to_float 1) (float_mul (float_literal 2 1) (int_to_float 2))
     = float_literal 14 1"
  by code_simp

lemma score_400_two: "py_int (float_mul (int_to_float 400) (float_literal 14 1)) = 560"
  by code_simp

text \<open>
  C3: for every sequence of permissions, \<open>calculate_permission_score\<close> returns
  \<open>(int(raw_sum * (1 + 0.2 * k)), H)\<close>, where \<open>raw_sum\<close> adds the table scores (0
  for an unknown permission), \<open>H\<close> keeps the permissions scoring at least 100 in input
  order and \<open>k\<close> is the length of \<open>H\<close>; for READ_SMS and SEND_SMS the raw sum is
  400, the multiplier is the double 1.4 and the score is 560. The arithmetic is that of
  Python's floats.
\<close>

theorem calculate_permission_score_formula:
  "calculate_permission_score ps = permission_score_spec ps \<and>
   sum_list (map permission_score_of
     [''android.permission.READ_SMS'', ''android.permission.SEND_SMS'']) = 400 \<and>
   float_add (int_to_float 1) (float_mul (float_literal 2 1) (int_to_float 2))
     = float_literal 14 1 \<and>
   calculate_permission_score [''android.permission.READ_SMS'', ''android.permission.SEND_SMS'']
     = (560, [''android.permission.READ_SMS'', ''android.permission.SEND_SMS''])"
proof -
  have eq: "calculate_permission_score ps = permission_score_spec ps" for ps
    by (simp add: calculate_permission_score_def permission_score_spec_def permission_loop_eq
                  float_mul_def Let_def mult.commute)
  have "permission_score_spec [''android.permission.READ_SMS'', ''android.permission.SEND_SMS'']
     = (560, [''android.permission.READ_SMS'', ''android.permission.SEND_SMS''])"
    by (simp add: permission_score_spec_def sms_scores multiplier_two score_400_two)
  then show ?thesis using eq by (simp add: sms_scores multiplier_two)
qed

text \<open>
  With seven permissions of raw sum 645, two of them high-risk, the double product
  645 * 1.4 lies just below 903 and the score is 902.
\<close>

lemma permission_score_rounding_example:
  "py_int (float_mul (int_to_float 645) (float_literal 14 1)) = 902"
  by code_simp

subsection \<open>Safe app discount\<close>

lemma float_literal_three_tenths:
  "float_literal 3 1 = 5404319552844595 / 18014398509481984"
  by code_simp

lemma discount_product_upper:
  assumes "0 \<le> T"
  shows "float_mul (int_to_float T) (float_literal 3 1) \<le> 27 / 40 * of_int T"
proof -
  let ?x = "int_to_float T"
  let ?c = "float_literal 3 1"
  have T: "(0::rat) \<le> of_int T" using assms by simp
  have x0: "0 \<le> ?x" unfolding int_to_float_def using T by (rule round_double_nonneg)
  have x1: "?x \<le> 3 / 2 * of_int T" unfolding int_to_float_def using T by (rule round_double_upper)
  have c0: "0 \<le> ?c" and c1: "?c \<le> 3 / 10" by (simp_all add: float_literal_three_tenths)
  have y0: "0 \<le> ?x * ?c" using x0 c0 by simp
  have "float_mul ?x ?c \<le> 3 / 2 * (?x * ?c)"
    unfolding float_mul_def using y0 by (rule round_double_upper)
  also have "?x * ?c \<le> (3 / 2 * of_int T) * (3 / 10)"
    using x1 c1 x0 c0 T by (intro mult_mono) simp_all
  finally show ?thesis by simp
qed

text \<open>
  C2, as amended: for every total \<open>T \<ge> 0\<close> the total after the discount step never
  exceeds \<open>T\<close>; for an allowlisted package and \<open>T > 0\<close> it is strictly below \<open>T\<close>;
  it equals \<open>T\<close> exactly when the package is not allowlisted or \<open>T = 0\<close> (an
  allowlisted total of 0 stays 0).
\<close>

theorem safe_app_discount_amended:
  "0 \<le> T \<Longrightarrow>
     discounted_total known T \<le> of_int T \<and>
     (known \<and> 0 < T \<longrightarrow> discounted_total known T < of_int T) \<and>
     (discounted_total known T = of_int T \<longleftrightarrow> \<not> known \<or> T = 0) \<and>
     discounted_total True 0 = 0 \<and>
     discounted_total False T = of_int T"
proof -
  assume T: "0 \<le> T"
  let ?y = "float_mul (int_to_float T) (float_literal 3 1)"
  have up: "?y \<le> 27 / 40 * of_int T" using T by (rule discount_product_upper)
  have zero: "discounted_total True 0 = 0"
    by (simp add: discounted_total_def int_to_float_def float_mul_def round_double_def)
  have lt: "max 0 ?y < of_int T" if "0 < T"
  proof -
    have "(0::rat) < of_int T" using that by simp
    then show ?thesis using up by simp
  qed
  have nd: "discounted_total False T = of_int T" by (simp add: discounted_total_def)
  show ?thesis
  proof (cases known)
    case False
    then show ?thesis using zero by (simp add: discounted_total_def)
  next
    case True
    then have dt: "discounted_total known T = max 0 ?y" by (simp only: discounted_total_def if_True)
    show ?thesis
    proof (cases "T = 0")
      case True
      then show ?thesis using zero nd \<open>known\<close> by simp
    next
      case False
      with T have "0 < T" by simp
      from lt [OF this] have "discounted_total known T < of_int T" by (simp only: dt)
      then show ?thesis using \<open>known\<close> \<open>T \<noteq> 0\<close> zero nd by simp
    qed
  qed
qed

theorem safe_app_discount_amended_witness:
  "(0::int) \<le> 600 \<and> discounted_total True 600 < of_int 600 \<and> discounted_total True 600 = 180"
proof -
  have v: "discounted_total True 600 = 180" by code_simp
  show ?thesis using safe_app_discount_amended [of 600 True] v by simp
qed

text \<open>
  C2 as stated fails at \<open>T = 0\<close> for an allowlisted package: the discounted total is
  not strictly below \<open>T\<close>, and it equals \<open>T\<close> although the package is allowlisted.
\<close>

theorem safe_app_discount_zero_counterexample:
  "\<not> discounted_total True 0 < of_int 0 \<and> discounted_total True 0 = of_int 0"
  by (simp add: discounted_total_def int_to_float_def float_mul_def round_double_def)

subsection \<open>The aggregator's two outcomes\<close>

lemma analyze_apk_ReportD:
  assumes "fst (analyze_apk p w st) = Report r"
  shows "\<exists>a h. path_exists w \<and> open_apk w = Inr a \<and> generate_apk_hash w = Inr h \<and>
           package r = py_or (get_package a) ''Unknown'' \<and> package r \<noteq> ''Unknown'' \<and>
           apk_hash r = h \<and>
           suspicious_urls r = analyze_urls a \<and>
           suspicious_code_patterns r = analyze_code_patterns (Inr a) \<and>
           (certificate_score r, certificate_notes r) =
             calculate_certificate_risk (get_certificates a) \<and>
           (permission_score r, high_risk_permissions r) =
             calculate_permission_score (case get_permissions a of None \<Rightarrow> [] | Some ps \<Rightarrow> ps) \<and>
           is_known_safe_app r =
             (py_strip (py_lower (package r))
                \<in> fst (load_safe_apps (safe_apps_file w) (clock_check w) (clock_store w) st)) \<and>
           snd (analyze_apk p w st) =
             snd (load_safe_apps (safe_apps_file w) (clock_check w) (clock_store w) st)"
    and "url_score r = sum_list (map u_score (suspicious_urls r))"
    and "code_analysis_score r = sum_list (map p_score (suspicious_code_patterns r))"
    and "overall_risk r =
           risk_level_of (discounted_total (is_known_safe_app r)
             (permission_score r + url_score r + code_analysis_score r + certificate_score r))"
    and "total_score r =
           py_int (discounted_total (is_known_safe_app r)
             (permission_score r + url_score r + code_analysis_score r + certificate_score r))"
    and "risk_note r = risk_note_of (is_known_safe_app r)"
  using assms unfolding analyze_apk_def
  by (auto simp: Let_def split: if_splits sum.splits prod.splits)

lemma analyze_apk_ReportI:
  assumes "path_exists w" "open_apk w = Inr a" "py_or (get_package a) ''Unknown'' \<noteq> ''Unknown''"
    "generate_apk_hash w = Inr h"
  shows "\<exists>r. fst (analyze_apk p w st) = Report r"
  using assms unfolding analyze_apk_def
  by (auto simp: Let_def split: if_splits sum.splits prod.splits)

lemma analyze_apk_ErrorD:
  assumes "fst (analyze_apk p w st) = Error e"
  shows "snd (analyze_apk p w st) = st"
    and "\<not> path_exists w \<and> e = ''APK file not found: '' @ p \<or>
         open_apk w = Inl e \<or>
         (\<exists>a. open_apk w = Inr a \<and> py_or (get_package a) ''Unknown'' = ''Unknown'' \<and>
              e = ''Could not extract package name from APK'') \<or>
         generate_apk_hash w = Inl e"
  using assms unfolding analyze_apk_def
  by (auto simp: Let_def split: if_splits sum.splits prod.splits)

subsection \<open>The scanner loops\<close>

lemma pattern_loop_eq:
  "pattern_loop items text acc =
     acc @ map finding_of (filter (\<lambda>entry. re_search_ignorecase (fst entry) text) items)"
  by (induction items arbitrary: acc) (auto simp: finding_of_def)

lemma strings_loop_eq: "strings_loop pool acc = acc @ pattern_findings_spec pool"
proof (induction pool arbitrary: acc)
  case Nil
  then show ?case by (simp add: pattern_findings_spec_def)
next
  case (Cons item pool)
  then show ?case
    by (cases item) (simp_all add: pattern_findings_spec_def pattern_loop_eq matches_of_def)
qed

lemma domain_loop_eq: "domain_loop ds acc = acc @ concat (map classify_domain ds)"
  by (induction ds arbitrary: acc) (auto simp: classify_domain_def)

lemma urls_loop_eq: "urls_loop pool acc = acc @ domain_findings_spec pool"
proof (induction pool arbitrary: acc)
  case Nil
  then show ?case by (simp add: domain_findings_spec_def)
next
  case (Cons item pool)
  then show ?case
    by (cases item) (simp_all add: domain_findings_spec_def hosts_of_def domain_loop_eq)
qed

lemma known_sets_disjoint: "set KNOWN_GOOD_DOMAINS \<inter> set KNOWN_BAD_DOMAINS = {}"
  by (simp add: KNOWN_GOOD_DOMAINS_def KNOWN_BAD_DOMAINS_def)

lemma classify_domain_not_good:
  assumes "f \<in> set (classify_domain h)"
  shows "u_url f = h \<and> h \<notin> set KNOWN_GOOD_DOMAINS"
proof -
  have "h \<in> set KNOWN_BAD_DOMAINS \<Longrightarrow> h \<notin> set KNOWN_GOOD_DOMAINS"
    using known_sets_disjoint by blast
  then show ?thesis using assms
    by (auto simp: classify_domain_def split: if_splits)
qed

lemma py_in_iff: "py_in part s \<longleftrightarrow> (\<exists>xs ys. s = xs @ part @ ys)"
proof (induction s)
  case Nil
  then show ?case by auto
next
  case (Cons c cs)
  show ?case
  proof
    assume "py_in part (c # cs)"
    then consider "take (length part) (c # cs) = part" | "py_in part cs" by auto
    then show "\<exists>xs ys. c # cs = xs @ part @ ys"
    proof cases
      case 1
      then have "c # cs = [] @ part @ drop (length part) (c # cs)"
        by (metis append_Nil append_take_drop_id)
      then show ?thesis by blast
    next
      case 2
      with Cons obtain xs ys where "cs = xs @ part @ ys" by blast
      then have "c # cs = (c # xs) @ part @ ys" by simp
      then show ?thesis by blast
    qed
  next
    assume "\<exists>xs ys. c # cs = xs @ part @ ys"
    then obtain xs ys where e: "c # cs = xs @ part @ ys" by blast
    show "py_in part (c # cs)"
    proof (cases xs)
      case Nil
      with e have "take (length part) (c # cs) = part" by simp
      then show ?thesis by simp
    next
      case (Cons x xs')
      with e have "cs = xs' @ part @ ys" by simp
      with Cons.IH have "py_in part cs" by blast
      then show ?thesis by simp
    qed
  qed
qed


subsection \<open>The example package\<close>

lemma example_urls:
  "analyze_urls example_apk =
     [\<lparr>u_url = ''evil-server.net'', u_reason = ''Known malicious domain'', u_score = 200\<rparr>]"
  by (simp add: analyze_urls_def example_apk_def match_url_def strip_prefix_def is_host_char_def
        KNOWN_BAD_DOMAINS_def)

lemma matches_getDeviceId: "matches_of ''getDeviceId'' = [(''getDeviceId'', 100)]"
  by (simp add: matches_of_def MALICIOUS_PATTERNS_def bsl_def re_search_ignorecase_def
        py_lower_char_def at_boundary_def is_word_char_def)

lemma matches_su': "matches_of ''su'' = [(''su'' @ bsl @ ''b'', 150)]"
  by (simp add: matches_of_def MALICIOUS_PATTERNS_def bsl_def re_search_ignorecase_def
        py_lower_char_def at_boundary_def is_word_char_def)

lemma matches_url: "matches_of ''http://evil-server.net/a'' = []"
  by (simp add: matches_of_def MALICIOUS_PATTERNS_def bsl_def re_search_ignorecase_def
        py_lower_char_def at_boundary_def is_word_char_def)

lemma example_patterns:
  "analyze_code_patterns (Inr example_apk) =
     [\<lparr>p_pattern = ''su'' @ bsl @ ''b'', p_score = 150, p_location = ''APK strings''\<rparr>,
      \<lparr>p_pattern = ''su'' @ bsl @ ''b'', p_score = 150, p_location = ''APK strings''\<rparr>,
      \<lparr>p_pattern = ''getDeviceId'', p_score = 100, p_location = ''APK strings''\<rparr>]"
  by (simp add: analyze_code_patterns_def example_apk_def strings_loop_eq pattern_findings_spec_def
        matches_getDeviceId matches_su' matches_url finding_of_def)

lemma example_safe_apps:
  "load_safe_apps (safe_apps_file example_world) 0 7 empty_cache =
     ({''com.example.bank''},
      \<lparr>safe_apps_cache = Some {''com.example.bank''}, safe_apps_last_loaded = Some 7\<rparr>)"
  by (simp add: load_safe_apps_def cache_valid_def empty_cache_def example_world_def json_iter_def
        json_get_def truthy_def py_strip_def py_lower_def py_lower_char_def py_isspace_def)

lemma no_permissions_score: "calculate_permission_score [] = (0, [])"
  by (simp add: calculate_permission_score_def int_to_float_def float_mul_def round_double_def
        py_int_def)

lemma discount_600: "discounted_total True 600 = 180"
  by code_simp

lemma example_package: "py_strip (py_lower '' Com.Example.BANK'') = ''com.example.bank''"
  by code_simp

lemma example_report:
  "analyze_apk ''bank.apk'' example_world empty_cache =
     (Report
        \<lparr>app_name = ''Bank'', package = '' Com.Example.BANK'', version = ''1.0 (Unknown)'',
         apk_hash = ''ab12'', permissions = [], permission_score = 0, url_score = 200,
         code_analysis_score = 400, certificate_score = 0,
         certificate_notes = ''Certificate found (basic check)'', total_score = 180,
         overall_risk = ''Moderate Risk'', risk_note = ''Known safe app (score reduced)'',
         high_risk_permissions = [],
         suspicious_urls = analyze_urls example_apk,
         suspicious_code_patterns = analyze_code_patterns (Inr example_apk),
         is_known_safe_app = True, analysis_timestamp = ''2024-01-01T00:00:00'',
         false_positive_reported = False\<rparr>,
      \<lparr>safe_apps_cache = Some {''com.example.bank''}, safe_apps_last_loaded = Some 7\<rparr>)"
proof -
  have f: "get_permissions example_apk = Some []" "get_app_name example_apk = Some ''Bank''"
    "get_package example_apk = Some '' Com.Example.BANK''"
    "get_androidversion_name example_apk = Some ''1.0''"
    "get_androidversion_code example_apk = None"
    "get_certificates example_apk = Inr [''cert'']"
    by (simp_all add: example_apk_def)
  have w: "path_exists example_world" "open_apk example_world = Inr example_apk"
    "generate_apk_hash example_world = Inr ''ab12''" "clock_check example_world = 0"
    "clock_store example_world = 7" "timestamp_iso example_world = ''2024-01-01T00:00:00''"
    by (simp_all add: example_world_def)
  have sums: "sum_list (map u_score (analyze_urls example_apk)) = 200"
    "sum_list (map p_score (analyze_code_patterns (Inr example_apk))) = 400"
    by (simp_all add: example_urls example_patterns)
  show ?thesis
    unfolding analyze_apk_def
    by (simp add: f w sums py_or_def example_safe_apps example_package no_permissions_score
          calculate_certificate_risk_def discount_600 risk_level_of_def risk_note_of_def
          py_int_def Let_def)
qed

subsection \<open>Known-good domains\<close>

text \<open>
  C7: for every string pool, no finding of the domain scanner names a domain of the
  known-good set, whatever substrings the domain contains; the known-good and the
  known-bad set are disjoint, which the proof uses for the known-bad branch.
\<close>

theorem known_good_domain_never_flagged:
  "set KNOWN_GOOD_DOMAINS \<inter> set KNOWN_BAD_DOMAINS = {} \<and>
   (\<forall>f \<in> set (analyze_urls a). u_url f \<notin> set KNOWN_GOOD_DOMAINS)"
proof -
  have "u_url f \<notin> set KNOWN_GOOD_DOMAINS" if "f \<in> set (domain_findings_spec pool)" for f pool
    using that classify_domain_not_good
    by (auto simp: domain_findings_spec_def)
  then show ?thesis
    using known_sets_disjoint
    by (auto simp: analyze_urls_def urls_loop_eq split: sum.splits)
qed

theorem known_good_domain_never_flagged_witness:
  "\<lparr>u_url = ''evil-server.net'', u_reason = ''Known malicious domain'', u_score = 200\<rparr>
     \<in> set (analyze_urls example_apk) \<and>
   ''evil-server.net'' \<notin> set KNOWN_GOOD_DOMAINS \<and>
   ''googleapis.com'' \<in> set KNOWN_GOOD_DOMAINS \<and>
   analyze_urls (apk_with_strings [Text ''https://googleapis.com/maps'']) = []"
proof -
  let ?f = "\<lparr>u_url = ''evil-server.net'', u_reason = ''Known malicious domain'', u_score = 200\<rparr>"
  have m: "?f \<in> set (analyze_urls example_apk)" by (simp add: example_urls)
  from known_good_domain_never_flagged [of example_apk, THEN conjunct2, THEN bspec, OF m]
  have n: "''evil-server.net'' \<notin> set KNOWN_GOOD_DOMAINS" by simp
  have g: "''googleapis.com'' \<in> set KNOWN_GOOD_DOMAINS" by (simp add: KNOWN_GOOD_DOMAINS_def)
  have e: "analyze_urls (apk_with_strings [Text ''https://googleapis.com/maps'']) = []"
    by (simp add: analyze_urls_def apk_with_strings_def match_url_def strip_prefix_def
          is_host_char_def KNOWN_GOOD_DOMAINS_def KNOWN_BAD_DOMAINS_def)
  from m n g e show ?thesis by (intro conjI)
qed

subsection \<open>Domain classification\<close>





subsection \<open>Pattern findings\<close>



subsection \<open>Certificate risk\<close>

text \<open>
  C5: \<open>calculate_certificate_risk\<close> returns (0, "Certificate found (basic check)")
  when there is a certificate, (100, "No certificate found") when the list is empty,
  and (75, "Certificate analysis failed: " followed by the reason) when the extraction
  raises; in that last case the analysis still returns a report, with these two values.
\<close>

theorem calculate_certificate_risk_cases:
  "calculate_certificate_risk (Inr (c # cs)) = (0, ''Certificate found (basic check)'') \<and>
   calculate_certificate_risk (Inr []) = (100, ''No certificate found'') \<and>
   calculate_certificate_risk (Inl e) = (75, ''Certificate analysis failed: '' @ e) \<and>
   (path_exists w \<and> open_apk w = Inr a \<and> py_or (get_package a) ''Unknown'' \<noteq> ''Unknown'' \<and>
    generate_apk_hash w = Inr h \<and> get_certificates a = Inl e \<longrightarrow>
      (\<exists>r. fst (analyze_apk p w st) = Report r \<and> certificate_score r = 75 \<and>
           certificate_notes r = ''Certificate analysis failed: '' @ e))"
proof -
  have "\<exists>r. fst (analyze_apk p w st) = Report r \<and> certificate_score r = 75 \<and>
           certificate_notes r = ''Certificate analysis failed: '' @ e"
    if h: "path_exists w" "open_apk w = Inr a" "py_or (get_package a) ''Unknown'' \<noteq> ''Unknown''"
      "generate_apk_hash w = Inr h" "get_certificates a = Inl e"
  proof -
    from analyze_apk_ReportI [OF h(1-4)] obtain r where r: "fst (analyze_apk p w st) = Report r"
      by blast
    from analyze_apk_ReportD(1) [OF r] obtain a' where
      a': "open_apk w = Inr a'" and
      c: "(certificate_score r, certificate_notes r) =
            calculate_certificate_risk (get_certificates a')"
      by blast
    from a' h(2) have "a' = a" by simp
    with c h(5) have "(certificate_score r, certificate_notes r) =
        (75, ''Certificate analysis failed: '' @ e)"
      by (simp add: calculate_certificate_risk_def)
    then show ?thesis using r by simp
  qed
  then show ?thesis by (simp add: calculate_certificate_risk_def)
qed

theorem calculate_certificate_risk_cases_witness:
  "\<exists>r. fst (analyze_apk ''bank.apk'' unsigned_world empty_cache) = Report r \<and>
       certificate_score r = 75 \<and>
       certificate_notes r = ''Certificate analysis failed: bad signature''"
proof -
  let ?a = "example_apk\<lparr>get_certificates := Inl ''bad signature''\<rparr>"
  have hyp: "path_exists unsigned_world \<and> open_apk unsigned_world = Inr ?a \<and>
      py_or (get_package ?a) ''Unknown'' \<noteq> ''Unknown'' \<and>
      generate_apk_hash unsigned_world = Inr ''ab12'' \<and>
      get_certificates ?a = Inl ''bad signature''"
    by (simp add: unsigned_world_def example_world_def example_apk_def py_or_def)
  note t = calculate_certificate_risk_cases
             [where w = unsigned_world and e = "''bad signature''" and h = "''ab12''"
                and c = "''cert''" and cs = "[]" and a = ?a
                and p = "''bank.apk''" and st = empty_cache]
  from t [THEN conjunct2, THEN conjunct2, THEN conjunct2, THEN mp, OF hyp]
  show ?thesis by simp
qed

subsection \<open>Risk level\<close>

text \<open>
  C4: the risk level is "Dangerous" above 500, "Potentially Risky" above 200 up to 500,
  "Moderate Risk" above 50 up to 200 and "Likely Safe" up to 50, and every report
  carries the level of its total after the discount; a total of 600 of an allowlisted
  package becomes 180, "Moderate Risk".
\<close>

theorem risk_level_thresholds:
  "(500 < t \<longrightarrow> risk_level_of t = ''Dangerous'') \<and>
   (200 < t \<and> t \<le> 500 \<longrightarrow> risk_level_of t = ''Potentially Risky'') \<and>
   (50 < t \<and> t \<le> 200 \<longrightarrow> risk_level_of t = ''Moderate Risk'') \<and>
   (t \<le> 50 \<longrightarrow> risk_level_of t = ''Likely Safe'') \<and>
   (fst (analyze_apk p w st) = Report r \<longrightarrow>
      overall_risk r =
        risk_level_of (discounted_total (is_known_safe_app r)
          (permission_score r + url_score r + code_analysis_score r + certificate_score r)) \<and>
      total_score r =
        py_int (discounted_total (is_known_safe_app r)
          (permission_score r + url_score r + code_analysis_score r + certificate_score r))) \<and>
   discounted_total True 600 = 180 \<and>
   risk_level_of (discounted_total True 600) = ''Moderate Risk''"
proof -
  have "risk_level_of (discounted_total True 600) = ''Moderate Risk''"
    by (simp add: discount_600 risk_level_of_def)
  then show ?thesis
    using analyze_apk_ReportD(4,5) [of p w st r] discount_600
    by (auto simp: risk_level_of_def)
qed

theorem risk_level_thresholds_witness:
  "\<exists>r. fst (analyze_apk ''bank.apk'' example_world empty_cache) = Report r \<and>
       permission_score r + url_score r + code_analysis_score r + certificate_score r = 600 \<and>
       is_known_safe_app r \<and> total_score r = 180 \<and> overall_risk r = ''Moderate Risk''"
proof -
  obtain r where r: "fst (analyze_apk ''bank.apk'' example_world empty_cache) = Report r"
    and s: "permission_score r + url_score r + code_analysis_score r + certificate_score r = 600"
    and k: "is_known_safe_app r"
    by (simp add: example_report)
  have "(50::rat) < 180 \<and> (180::rat) \<le> 200" by simp
  then have "overall_risk r = ''Moderate Risk'' \<and> total_score r = 180"
    using risk_level_thresholds [of 180 "''bank.apk''" example_world empty_cache r] r s k
    by (simp add: py_int_def)
  then show ?thesis using r s k by blast
qed

subsection \<open>Report or error\<close>

text \<open>
  C8: \<open>analyze_apk\<close> returns an error record or a report, never both nor a part of
  one; it returns a report exactly when the path exists, the package parses, its
  identifier is determined and hashing succeeds; an error leaves the safe-apps cache
  as it was; and with no identifier the error is returned whatever hashing, the
  allowlist and the scanners would do.
\<close>

theorem analyze_apk_report_or_error:
  "((\<exists>e. fst (analyze_apk p w st) = Error e) \<or> (\<exists>r. fst (analyze_apk p w st) = Report r)) \<and>
   (fst (analyze_apk p w st) = Error e \<longrightarrow> snd (analyze_apk p w st) = st) \<and>
   (path_exists w \<and> open_apk w = Inr a \<and> py_or (get_package a) ''Unknown'' = ''Unknown'' \<longrightarrow>
      analyze_apk p w st = (Error ''Could not extract package name from APK'', st)) \<and>
   ((\<exists>r. fst (analyze_apk p w st) = Report r) \<longleftrightarrow>
      path_exists w \<and>
      (\<exists>a h. open_apk w = Inr a \<and> py_or (get_package a) ''Unknown'' \<noteq> ''Unknown'' \<and>
             generate_apk_hash w = Inr h))"
proof -
  have 1: "(\<exists>e. fst (analyze_apk p w st) = Error e) \<or> (\<exists>r. fst (analyze_apk p w st) = Report r)"
    by (cases "fst (analyze_apk p w st)") simp_all
  have 2: "fst (analyze_apk p w st) = Error e \<longrightarrow> snd (analyze_apk p w st) = st"
    using analyze_apk_ErrorD(1) by blast
  have 3: "path_exists w \<and> open_apk w = Inr a \<and> py_or (get_package a) ''Unknown'' = ''Unknown'' \<longrightarrow>
      analyze_apk p w st = (Error ''Could not extract package name from APK'', st)"
    by (simp add: analyze_apk_def Let_def)
  have 4: "(\<exists>r. fst (analyze_apk p w st) = Report r) \<longleftrightarrow>
      path_exists w \<and>
      (\<exists>a h. open_apk w = Inr a \<and> py_or (get_package a) ''Unknown'' \<noteq> ''Unknown'' \<and>
             generate_apk_hash w = Inr h)"
  proof
    assume "\<exists>r. fst (analyze_apk p w st) = Report r"
    then obtain r where "fst (analyze_apk p w st) = Report r" by blast
    from analyze_apk_ReportD(1) [OF this] show "path_exists w \<and>
      (\<exists>a h. open_apk w = Inr a \<and> py_or (get_package a) ''Unknown'' \<noteq> ''Unknown'' \<and>
             generate_apk_hash w = Inr h)"
      by metis
  next
    assume "path_exists w \<and>
      (\<exists>a h. open_apk w = Inr a \<and> py_or (get_package a) ''Unknown'' \<noteq> ''Unknown'' \<and>
             generate_apk_hash w = Inr h)"
    then show "\<exists>r. fst (analyze_apk p w st) = Report r"
      using analyze_apk_ReportI by blast
  qed
  from 1 2 3 4 show ?thesis by blast
qed

theorem analyze_apk_report_or_error_witness:
  "analyze_apk ''x.apk'' anonymous_world expired_cache
     = (Error ''Could not extract package name from APK'', expired_cache) \<and>
   (\<exists>r. fst (analyze_apk ''bank.apk'' example_world empty_cache) = Report r)"
proof -
  have a: "path_exists anonymous_world"
    "open_apk anonymous_world = Inr (example_apk\<lparr>get_package := None\<rparr>)"
    "py_or (get_package (example_apk\<lparr>get_package := None\<rparr>)) ''Unknown'' = ''Unknown''"
    by (simp_all add: anonymous_world_def example_world_def py_or_def)
  have b: "path_exists example_world" "open_apk example_world = Inr example_apk"
    "py_or (get_package example_apk) ''Unknown'' \<noteq> ''Unknown''"
    "generate_apk_hash example_world = Inr ''ab12''"
    by (simp_all add: example_world_def example_apk_def py_or_def)
  show ?thesis
    using analyze_apk_report_or_error
            [where p = "''x.apk''" and w = anonymous_world and st = expired_cache
               and a = "example_apk\<lparr>get_package := None\<rparr>"]
          analyze_apk_report_or_error
            [where p = "''bank.apk''" and w = example_world and st = empty_cache]
          a b
    by blast
qed

subsection \<open>Safe apps cache on a failed refresh\<close>

text \<open>
  C1, as amended: when the cache is not valid (none, or 300 seconds old) and the
  refresh fails, \<open>load_safe_apps\<close> returns the empty set and leaves the cached set and
  its time stamp as they were; while the cache is valid it returns the cached set.
\<close>

theorem load_safe_apps_failure_amended:
  "(\<not> cache_valid now st \<and> refresh_fails file \<longrightarrow>
      load_safe_apps file now now' st = ({}, st)) \<and>
   (cache_valid now st \<longrightarrow>
      (\<exists>cached. safe_apps_cache st = Some cached \<and>
         load_safe_apps file now now' st = (cached, st)))"
  by (auto simp: load_safe_apps_def refresh_fails_def cache_valid_def
           split: safe_file.splits option.splits)

lemma seconds_400: "total_seconds 400000000 = 400"
  by code_simp

lemma seconds_100: "total_seconds 100000000 = 100"
  by code_simp

lemma expired_cache_invalid: "\<not> cache_valid 400000000 expired_cache"
  by (simp add: cache_valid_def expired_cache_def seconds_400)

lemma expired_cache_valid_before: "cache_valid 100000000 expired_cache"
  by (simp add: cache_valid_def expired_cache_def seconds_100)

theorem load_safe_apps_failure_amended_witness:
  "load_safe_apps (Parsed (JObj [(''apps'', JArr [])])) 400000000 400000001 expired_cache
     = ({}, expired_cache) \<and>
   load_safe_apps Missing 100000000 100000001 expired_cache
     = ({''com.example.bank''}, expired_cache)"
proof -
  have f: "refresh_fails (Parsed (JObj [(''apps'', JArr [])]))"
    by (simp add: refresh_fails_def json_iter_def json_get_def)
  have c: "safe_apps_cache expired_cache = Some {''com.example.bank''}"
    by (simp add: expired_cache_def)
  show ?thesis
    using load_safe_apps_failure_amended
            [of 400000000 expired_cache "Parsed (JObj [(''apps'', JArr [])])" 400000001]
          load_safe_apps_failure_amended [of 100000000 expired_cache Missing 100000001]
          expired_cache_invalid expired_cache_valid_before f c
    by auto
qed

text \<open>
  C1 as stated fails for a cached non-empty set that has expired when the file is
  missing: the call returns the empty set, not the cached one.
\<close>

theorem load_safe_apps_failure_counterexample:
  "safe_apps_cache expired_cache = Some {''com.example.bank''} \<and>
   fst (load_safe_apps Missing 400000000 400000001 expired_cache) = {} \<and>
   fst (load_safe_apps Missing 400000000 400000001 expired_cache)
     \<noteq> the (safe_apps_cache expired_cache)"
  using expired_cache_invalid
  by (simp add: load_safe_apps_def) (simp add: expired_cache_def)

end
